theory Spec2Isabelle
  imports Main "HOL-Library.Sublist"
begin

unbundle bit_operations_syntax

section \<open>Byte strings\<close>

text \<open>
  Go strings are byte sequences; they are modelled as \<open>string\<close> (a list of 8-bit \<open>char\<close>).
  \<open>strings.ToLower\<close> applies Unicode case mapping and is a parameter of the platform below.
  On a string whose bytes are all below 0x80 it is \<open>toLower_ascii\<close>, which lower-cases the
  letters A to Z.
\<close>

definition toLower_byte :: "char \<Rightarrow> char" where
  "toLower_byte c =
     (let n = (of_char c :: nat) in if 65 \<le> n \<and> n \<le> 90 then char_of (n + 32) else c)"

definition toLower_ascii :: "string \<Rightarrow> string" where
  "toLower_ascii s = map toLower_byte s"

definition strings_HasPrefix :: "string \<Rightarrow> string \<Rightarrow> bool" where
  "strings_HasPrefix s p = prefix p s"

definition strings_TrimPrefix :: "string \<Rightarrow> string \<Rightarrow> string" where
  "strings_TrimPrefix s p = (if prefix p s then drop (length p) s else s)"

section \<open>encoding/base64\<close>

datatype b64_error = CorruptInputError nat

definition encodeStd :: string where
  "encodeStd = ''ABCDEFGHIJKLMNOPQRSTUVWXYZabcdefghijklmnopqrstuvwxyz0123456789+/''"

definition encodeURL :: string where
  "encodeURL = ''ABCDEFGHIJKLMNOPQRSTUVWXYZabcdefghijklmnopqrstuvwxyz0123456789-_''"

definition decodeMap :: "string \<Rightarrow> char \<Rightarrow> nat option" where
  "decodeMap alphabet c = map_of (zip alphabet [0..<length alphabet]) c"

definition enc_char :: "string \<Rightarrow> nat \<Rightarrow> char" where
  "enc_char alphabet v = alphabet ! (v AND 0x3F)"

fun encodeLoop :: "string \<Rightarrow> string \<Rightarrow> string" where
  "encodeLoop alphabet (a # b # c # src) =
     (let val = push_bit 16 (of_char a) OR push_bit 8 (of_char b) OR of_char c
      in enc_char alphabet (drop_bit 18 val) # enc_char alphabet (drop_bit 12 val)
         # enc_char alphabet (drop_bit 6 val) # enc_char alphabet val
         # encodeLoop alphabet src)"
| "encodeLoop alphabet [a, b] =
     (let val = push_bit 16 (of_char a) OR push_bit 8 (of_char b)
      in [enc_char alphabet (drop_bit 18 val), enc_char alphabet (drop_bit 12 val),
          enc_char alphabet (drop_bit 6 val), CHR ''=''])"
| "encodeLoop alphabet [a] =
     (let val = push_bit 16 (of_char a)
      in [enc_char alphabet (drop_bit 18 val), enc_char alphabet (drop_bit 12 val),
          CHR ''='', CHR ''=''])"
| "encodeLoop alphabet [] = []"

definition EncodeToString :: "string \<Rightarrow> string \<Rightarrow> string" where
  "EncodeToString alphabet src = encodeLoop alphabet src"

definition quantumBytes :: "nat list \<Rightarrow> string" where
  "quantumBytes dbuf =
     (let d = dbuf @ replicate (4 - length dbuf) 0;
          val = push_bit 18 (d ! 0) OR push_bit 12 (d ! 1) OR push_bit 6 (d ! 2) OR d ! 3
      in take (length dbuf - 1) [char_of (drop_bit 16 val), char_of (drop_bit 8 val), char_of val])"

definition isNewline :: "char \<Rightarrow> bool" where
  "isNewline c = (c = CHR 0x0A \<or> c = CHR 0x0D)"

fun decodeLoop :: "string \<Rightarrow> nat list \<Rightarrow> nat \<Rightarrow> string \<Rightarrow> b64_error + string" where
  "decodeLoop alphabet dbuf si [] =
     (if dbuf = [] then Inr [] else Inl (CorruptInputError (si - length dbuf)))"
| "decodeLoop alphabet dbuf si (c # src) =
     (case decodeMap alphabet c of
        Some out \<Rightarrow>
          if length dbuf = 3
          then (case decodeLoop alphabet [] (si + 1) src of
                  Inl e \<Rightarrow> Inl e
                | Inr rest \<Rightarrow> Inr (quantumBytes (dbuf @ [out]) @ rest))
          else decodeLoop alphabet (dbuf @ [out]) (si + 1) src
      | None \<Rightarrow>
          if isNewline c then decodeLoop alphabet dbuf (si + 1) src
          else if c \<noteq> CHR ''='' then Inl (CorruptInputError si)
          else if length dbuf < 2 then Inl (CorruptInputError si)
          else if length dbuf = 2 then
            (let p = si + 1 + length (takeWhile isNewline src) in
             case dropWhile isNewline src of
               [] \<Rightarrow> Inl (CorruptInputError p)
             | c2 # src2 \<Rightarrow>
                 if c2 \<noteq> CHR ''='' then Inl (CorruptInputError (p - 1))
                 else if dropWhile isNewline src2 \<noteq> []
                 then Inl (CorruptInputError (p + 1 + length (takeWhile isNewline src2)))
                 else Inr (quantumBytes dbuf))
          else if dropWhile isNewline src \<noteq> []
          then Inl (CorruptInputError (si + 1 + length (takeWhile isNewline src)))
          else Inr (quantumBytes dbuf))"

definition DecodeString :: "string \<Rightarrow> string \<Rightarrow> b64_error + string" where
  "DecodeString alphabet s = decodeLoop alphabet [] 0 s"

fun FormatInt :: "nat \<Rightarrow> string" where
  "FormatInt n = (if n < 10 then [char_of (48 + n)] else FormatInt (n div 10) @ [char_of (48 + n mod 10)])"

fun b64_Error :: "b64_error \<Rightarrow> string" where
  "b64_Error (CorruptInputError n) = ''illegal base64 data at input byte '' @ FormatInt n"

section \<open>regexp\<close>

datatype regex =
    Literal string
  | CharClass string
  | NegCharClass string
  | Concat regex regex
  | Quest regex
  | Star regex
  | Capture nat regex

definition Plus :: "regex \<Rightarrow> regex" where
  "Plus r = Concat r (Star r)"

definition Repeat12 :: "regex \<Rightarrow> regex" where
  "Repeat12 r = Concat r (Quest r)"

fun Seq :: "regex list \<Rightarrow> regex" where
  "Seq [] = Literal []"
| "Seq [r] = r"
| "Seq (r # rs) = Concat r (Seq rs)"

type_synonym captures = "(nat \<times> string) list"

function rmatch :: "regex \<Rightarrow> string \<Rightarrow> captures \<Rightarrow> (string \<times> captures) list" where
  "rmatch (Literal w) s caps = (if prefix w s then [(drop (length w) s, caps)] else [])"
| "rmatch (CharClass cs) s caps =
     (case s of [] \<Rightarrow> [] | x # xs \<Rightarrow> if x \<in> set cs then [(xs, caps)] else [])"
| "rmatch (NegCharClass cs) s caps =
     (case s of [] \<Rightarrow> [] | x # xs \<Rightarrow> if x \<notin> set cs then [(xs, caps)] else [])"
| "rmatch (Concat r1 r2) s caps =
     concat (map (\<lambda>(s', caps'). rmatch r2 s' caps') (rmatch r1 s caps))"
| "rmatch (Quest r) s caps = rmatch r s caps @ [(s, caps)]"
| "rmatch (Star r) s caps =
     concat (map (\<lambda>(s', caps'). if length s' < length s then rmatch (Star r) s' caps' else [])
                 (rmatch r s caps))
     @ [(s, caps)]"
| "rmatch (Capture i r) s caps =
     map (\<lambda>(s', caps'). (s', (i, take (length s - length s') s) # caps')) (rmatch r s caps)"
  by pat_completeness auto
termination
  by (relation "measures [\<lambda>(r, s, caps). size r, \<lambda>(r, s, caps). length s]") auto

declare rmatch.simps [simp del]

definition first_match :: "regex \<Rightarrow> string \<Rightarrow> captures \<Rightarrow> (string \<times> captures) option" where
  "first_match re s caps = (case rmatch re s caps of [] \<Rightarrow> None | x # _ \<Rightarrow> Some x)"

definition consuming :: "regex \<Rightarrow> bool" where
  "consuming re =
     (\<forall>s caps rest caps'. (rest, caps') \<in> set (rmatch re s caps) \<longrightarrow> length rest < length s)"

definition submatch :: "captures \<Rightarrow> nat \<Rightarrow> string" where
  "submatch caps i = (case map_of caps i of None \<Rightarrow> [] | Some g \<Rightarrow> g)"

fun FindStringSubmatch :: "regex \<Rightarrow> nat \<Rightarrow> string \<Rightarrow> string list option" where
  "FindStringSubmatch re n s =
     (case rmatch re s [] of
        (rest, caps) # _ \<Rightarrow> Some (take (length s - length rest) s # map (submatch caps) [1..<Suc n])
      | [] \<Rightarrow> (case s of [] \<Rightarrow> None | c # cs \<Rightarrow> FindStringSubmatch re n cs))"

function replaceAll :: "regex \<Rightarrow> (string \<Rightarrow> string) \<Rightarrow> bool \<Rightarrow> string \<Rightarrow> string" where
  "replaceAll re repl afterMatch s =
     (case rmatch re s [] of
        [] \<Rightarrow> (case s of [] \<Rightarrow> [] | c # cs \<Rightarrow> c # replaceAll re repl False cs)
      | (rest, caps) # _ \<Rightarrow>
          if length rest < length s
          then repl (take (length s - length rest) s) @ replaceAll re repl True rest
          else (if afterMatch then [] else repl [])
               @ (case s of [] \<Rightarrow> [] | c # cs \<Rightarrow> c # replaceAll re repl False cs))"
  by pat_completeness auto
termination
  by (relation "measure (\<lambda>(re, repl, afterMatch, s). length s)") auto

declare FindStringSubmatch.simps [simp del]

declare replaceAll.simps [simp del]

definition ReplaceAllStringFunc :: "regex \<Rightarrow> string \<Rightarrow> (string \<Rightarrow> string) \<Rightarrow> string" where
  "ReplaceAllStringFunc re src repl = replaceAll re repl False src"

definition quoteClass :: string where "quoteClass = [CHR 0x22, CHR 0x27]"
definition spaceClass :: string where "spaceClass = [CHR 0x09, CHR 0x0A, CHR 0x0C, CHR 0x0D, CHR 0x20]"

definition urlRegex :: regex where
  "urlRegex = Seq [Literal ''url('', Star (CharClass spaceClass),
                   Capture 1 (Quest (CharClass quoteClass)),
                   Capture 2 (Plus (NegCharClass [CHR 0x22, CHR 0x27, CHR '')''])),
                   Capture 3 (Quest (CharClass quoteClass)),
                   Star (CharClass spaceClass), Literal '')'']"


definition importRegex :: regex where
  "importRegex = Seq [Literal ''@import'', Plus (CharClass spaceClass),
                      Capture 1 (CharClass quoteClass),
                      Capture 2 (Plus (NegCharClass quoteClass)),
                      Capture 3 (CharClass quoteClass)]"

definition absRegex :: regex where
  "absRegex = Seq [Capture 1 (CharClass quoteClass),
                   Capture 2 (Seq [Literal ''http'', Quest (Literal ''s''), Literal ''://'',
                                   Plus (NegCharClass quoteClass)]),
                   Capture 3 (CharClass quoteClass)]"

definition relImportRegex :: regex where
  "relImportRegex = Seq [Literal ''import('', Star (CharClass spaceClass),
                         Capture 1 (CharClass quoteClass),
                         Capture 2 (Seq [Repeat12 (Literal ''.''), Literal ''/'',
                                         Plus (NegCharClass quoteClass)]),
                         Capture 3 (CharClass quoteClass)]"

definition staticImportRegex :: regex where
  "staticImportRegex = Seq [Literal ''from'', Star (CharClass spaceClass),
                            Capture 1 (CharClass quoteClass),
                            Capture 2 (Seq [Repeat12 (Literal ''.''), Literal ''/'',
                                            Plus (NegCharClass quoteClass)]),
                            Capture 3 (CharClass quoteClass)]"

definition urlFuncRegex :: regex where
  "urlFuncRegex = Seq [Literal ''URL('', Star (CharClass spaceClass),
                       Capture 1 (CharClass quoteClass),
                       Capture 2 (Seq [Literal ''/'', Star (NegCharClass quoteClass)]),
                       Capture 3 (CharClass quoteClass),
                       Star (CharClass spaceClass), Literal '')'']"

section \<open>net/url, net/http and golang.org/x/net/html\<close>

record url =
  Scheme :: string
  Opaque :: string
  Host :: string
  Path :: string
  RawQuery :: string
  Fragment :: string

datatype node_type =
  ErrorNode | TextNode | DocumentNode | ElementNode | CommentNode | DoctypeNode | RawNode

datatype attribute = Attribute (Namespace: string) (Key: string) (Val: string)

datatype node = Node (Type: node_type) (Data: string) (Attr: "attribute list") (Children: "node list")

type_synonym header = "(string \<times> string list) list"

type_synonym header_map = "string \<rightharpoonup> string list"

record upstream_request =
  req_Method :: string
  req_URL :: string
  req_Header :: header_map
  req_Body :: string

record response =
  StatusCode :: nat
  resp_Header :: header
  resp_Body :: string
  resp_Body_err :: "string option"

record platform =
  strings_ToLower :: "string \<Rightarrow> string"
  url_Parse :: "string \<Rightarrow> string + url"
  url_ResolveReference :: "url \<Rightarrow> url \<Rightarrow> url"
  url_String :: "url \<Rightarrow> string"
  html_Parse :: "string \<Rightarrow> string + node"
  html_Render :: "node \<Rightarrow> string + string"
  http_NewRequest_err :: "string \<Rightarrow> string \<Rightarrow> string option"
  client_Do :: "upstream_request \<Rightarrow> string + response"

definition base_Parse :: "platform \<Rightarrow> url \<Rightarrow> string \<Rightarrow> string + url" where
  "base_Parse P base ref =
     (case url_Parse P ref of
        Inl err \<Rightarrow> Inl err
      | Inr refURL \<Rightarrow> Inr (url_ResolveReference P base refURL))"

definition validHeaderFieldByte :: "char \<Rightarrow> bool" where
  "validHeaderFieldByte c =
     (let n = (of_char c :: nat) in
      (48 \<le> n \<and> n \<le> 57) \<or> (65 \<le> n \<and> n \<le> 90) \<or> (97 \<le> n \<and> n \<le> 122)
      \<or> c \<in> set ''!#$%&*+-.^_`|~'' \<or> c = CHR 0x27)"

definition toUpper_byte :: "char \<Rightarrow> char" where
  "toUpper_byte c =
     (let n = (of_char c :: nat) in if 97 \<le> n \<and> n \<le> 122 then char_of (n - 32) else c)"

fun canonicalLoop :: "bool \<Rightarrow> string \<Rightarrow> string" where
  "canonicalLoop upper [] = []"
| "canonicalLoop upper (c # cs) =
     (let c' = (if upper then toUpper_byte c else toLower_byte c)
      in c' # canonicalLoop (c' = CHR ''-'') cs)"

definition CanonicalMIMEHeaderKey :: "string \<Rightarrow> string" where
  "CanonicalMIMEHeaderKey s =
     (if list_all validHeaderFieldByte s then canonicalLoop True s else s)"

definition header_Add :: "string \<Rightarrow> string \<Rightarrow> header_map \<Rightarrow> header_map" where
  "header_Add key v h =
     (let k = CanonicalMIMEHeaderKey key
      in h(k \<mapsto> (case h k of None \<Rightarrow> [] | Some vs \<Rightarrow> vs) @ [v]))"

definition header_Set :: "string \<Rightarrow> string \<Rightarrow> header_map \<Rightarrow> header_map" where
  "header_Set key v h = h(CanonicalMIMEHeaderKey key \<mapsto> [v])"

definition header_Del :: "string \<Rightarrow> header_map \<Rightarrow> header_map" where
  "header_Del key h = h(CanonicalMIMEHeaderKey key := None)"

definition header_Get :: "header \<Rightarrow> string \<Rightarrow> string" where
  "header_Get h key =
     (case map_of h (CanonicalMIMEHeaderKey key) of
        None \<Rightarrow> [] | Some [] \<Rightarrow> [] | Some (v # _) \<Rightarrow> v)"

definition values_Get :: "(string \<rightharpoonup> string list) \<Rightarrow> string \<Rightarrow> string" where
  "values_Get q key = (case q key of None \<Rightarrow> [] | Some [] \<Rightarrow> [] | Some (v # _) \<Rightarrow> v)"

record request =
  Method :: string
  URL_Path :: string
  URL_Query :: "string \<rightharpoonup> string list"
  Header :: header
  Body :: string
  RHost :: string
  TLS :: bool

record response_writer =
  w_Header :: header_map
  w_Status :: "nat option"
  w_Body :: string

definition new_writer :: response_writer where
  "new_writer = \<lparr>w_Header = Map.empty, w_Status = None, w_Body = []\<rparr>"

definition WriteHeader :: "nat \<Rightarrow> response_writer \<Rightarrow> response_writer" where
  "WriteHeader code w = (if w_Status w = None then w\<lparr>w_Status := Some code\<rparr> else w)"

definition Write :: "string \<Rightarrow> response_writer \<Rightarrow> response_writer" where
  "Write bs w = (WriteHeader 200 w)\<lparr>w_Body := w_Body w @ bs\<rparr>"

definition http_Error :: "response_writer \<Rightarrow> string \<Rightarrow> nat \<Rightarrow> response_writer" where
  "http_Error w msg code =
     Write (msg @ [CHR 0x0A])
       (WriteHeader code
          (w\<lparr>w_Header := header_Set ''X-Content-Type-Options'' ''nosniff''
                           (header_Set ''Content-Type'' ''text/plain; charset=utf-8''
                              (header_Del ''Content-Length'' (w_Header w)))\<rparr>))"

section \<open>rewrite.go\<close>

definition proxied :: "platform \<Rightarrow> url \<Rightarrow> string \<Rightarrow> string" where
  "proxied P resolved origin =
     origin @ ''/'' @ EncodeToString encodeURL (url_String P resolved) @ ''?browse=1''"

subsection \<open>rewriteJS\<close>

definition js_abs_repl :: "platform \<Rightarrow> url \<Rightarrow> string \<Rightarrow> string \<Rightarrow> string" where
  "js_abs_repl P base origin match =
     (case FindStringSubmatch absRegex 3 match of
        None \<Rightarrow> match
      | Some submatches \<Rightarrow>
          if length submatches < 4 then match
          else let openQuote = submatches ! 1; urlPart = submatches ! 2;
                   closeQuote = submatches ! 3
               in (case base_Parse P base urlPart of
                     Inl err \<Rightarrow> match
                   | Inr resolved \<Rightarrow> openQuote @ proxied P resolved origin @ closeQuote))"

definition js_relImport_repl :: "platform \<Rightarrow> url \<Rightarrow> string \<Rightarrow> string \<Rightarrow> string" where
  "js_relImport_repl P base origin match =
     (case FindStringSubmatch relImportRegex 3 match of
        None \<Rightarrow> match
      | Some submatches \<Rightarrow>
          if length submatches < 4 then match
          else let openQuote = submatches ! 1; relPath = submatches ! 2;
                   closeQuote = submatches ! 3
               in (case base_Parse P base relPath of
                     Inl err \<Rightarrow> match
                   | Inr resolved \<Rightarrow>
                       ''import('' @ openQuote @ proxied P resolved origin @ closeQuote))"

definition js_staticImport_repl :: "platform \<Rightarrow> url \<Rightarrow> string \<Rightarrow> string \<Rightarrow> string" where
  "js_staticImport_repl P base origin match =
     (case FindStringSubmatch staticImportRegex 3 match of
        None \<Rightarrow> match
      | Some submatches \<Rightarrow>
          if length submatches < 4 then match
          else let openQuote = submatches ! 1; importPath = submatches ! 2;
                   closeQuote = submatches ! 3
               in (case base_Parse P base importPath of
                     Inl err \<Rightarrow> match
                   | Inr resolved \<Rightarrow>
                       (let newURL = proxied P resolved origin
                        in ''from '' @ openQuote @ newURL @ closeQuote)))"

definition js_urlFunc_repl :: "string \<Rightarrow> string \<Rightarrow> string" where
  "js_urlFunc_repl origin match =
     (case FindStringSubmatch urlFuncRegex 3 match of
        None \<Rightarrow> match
      | Some submatches \<Rightarrow>
          if length submatches < 4 then match
          else let openQuote = submatches ! 1; relPath = submatches ! 2;
                   closeQuote = submatches ! 3
               in ''URL('' @ openQuote @ origin @ relPath @ closeQuote @ '')'')"

definition rewriteJS_abs :: "platform \<Rightarrow> url \<Rightarrow> string \<Rightarrow> string \<Rightarrow> string" where
  "rewriteJS_abs P base origin text =
     ReplaceAllStringFunc absRegex text (js_abs_repl P base origin)"

definition rewriteJS :: "platform \<Rightarrow> string \<Rightarrow> url \<Rightarrow> string \<Rightarrow> string + string" where
  "rewriteJS P content base origin =
     (let text = content;
          text = rewriteJS_abs P base origin text;
          text = ReplaceAllStringFunc relImportRegex text (js_relImport_repl P base origin);
          text = ReplaceAllStringFunc staticImportRegex text (js_staticImport_repl P base origin);
          text = ReplaceAllStringFunc urlFuncRegex text (js_urlFunc_repl origin)
      in Inr text)"

subsection \<open>rewriteCSS\<close>

definition css_url_repl :: "platform \<Rightarrow> url \<Rightarrow> string \<Rightarrow> string \<Rightarrow> string" where
  "css_url_repl P base origin match =
     (case FindStringSubmatch urlRegex 3 match of
        None \<Rightarrow> match
      | Some submatches \<Rightarrow>
          if length submatches < 3 then match
          else let quote = submatches ! 1; urlPart = submatches ! 2
               in (case base_Parse P base urlPart of
                     Inl err \<Rightarrow> match
                   | Inr resolved \<Rightarrow>
                       ''url('' @ quote @ proxied P resolved origin @ quote @ '')''))"

definition css_import_repl :: "platform \<Rightarrow> url \<Rightarrow> string \<Rightarrow> string \<Rightarrow> string" where
  "css_import_repl P base origin match =
     (case FindStringSubmatch importRegex 3 match of
        None \<Rightarrow> match
      | Some submatches \<Rightarrow>
          if length submatches < 3 then match
          else let quote = submatches ! 1; urlPart = submatches ! 2
               in (case base_Parse P base urlPart of
                     Inl err \<Rightarrow> match
                   | Inr resolved \<Rightarrow>
                       ''@import '' @ quote @ proxied P resolved origin @ quote))"

definition rewriteCSS :: "platform \<Rightarrow> string \<Rightarrow> url \<Rightarrow> string \<Rightarrow> string + string" where
  "rewriteCSS P content base origin =
     (let text = content;
          text = ReplaceAllStringFunc urlRegex text (css_url_repl P base origin);
          text = ReplaceAllStringFunc importRegex text (css_import_repl P base origin)
      in Inr text)"

subsection \<open>rewriteHTML\<close>

definition rewriteAttrs :: "string \<Rightarrow> bool" where
  "rewriteAttrs k = (k \<in> set [''href'', ''src'', ''action'', ''formaction''])"

definition hasSrc :: "platform \<Rightarrow> attribute list \<Rightarrow> bool" where
  "hasSrc P attrs = list_ex (\<lambda>attr. strings_ToLower P (Key attr) = ''src'') attrs"

definition rewrite_script_child :: "platform \<Rightarrow> url \<Rightarrow> string \<Rightarrow> node \<Rightarrow> node" where
  "rewrite_script_child P base origin c =
     (if Type c = TextNode
      then (case rewriteJS P (Data c) base origin of
              Inr rewritten \<Rightarrow> Node (Type c) rewritten (Attr c) (Children c)
            | Inl err \<Rightarrow> c)
      else c)"

definition rewrite_attr :: "platform \<Rightarrow> url \<Rightarrow> string \<Rightarrow> attribute \<Rightarrow> attribute" where
  "rewrite_attr P base origin attr =
     (if rewriteAttrs (strings_ToLower P (Key attr))
      then if strings_HasPrefix (Val attr) ''data:'' then attr
           else (case base_Parse P base (Val attr) of
                   Inr resolved \<Rightarrow> Attribute (Namespace attr) (Key attr) (proxied P resolved origin)
                 | Inl err \<Rightarrow> attr)
      else attr)"

fun node_count :: "node \<Rightarrow> nat" where
  "node_count (Node t d as cs) = Suc (sum_list (map node_count cs))"

lemma node_count_script_child [simp]:
  "node_count (rewrite_script_child P base origin c) = node_count c"
  by (cases c) (simp add: rewrite_script_child_def split: sum.splits)

lemma node_count_child: "c \<in> set cs \<Longrightarrow> node_count c \<le> sum_list (map node_count cs)"
  by (induction cs) auto

function traverse :: "platform \<Rightarrow> url \<Rightarrow> string \<Rightarrow> node \<Rightarrow> node" where
  "traverse P base origin (Node t d attrs cs) =
     (if t = ElementNode
      then let cs1 = (if d = ''script'' \<and> \<not> hasSrc P attrs
                      then map (rewrite_script_child P base origin) cs else cs);
               attrs1 = map (rewrite_attr P base origin) attrs
           in Node t d attrs1 (map (traverse P base origin) cs1)
      else Node t d attrs (map (traverse P base origin) cs))"
  by pat_completeness auto
termination
  apply (relation "measure (\<lambda>(P, base, origin, n). node_count n)")
  apply (auto simp add: less_Suc_eq_le node_count_child split: if_splits)
  done

definition rewriteHTML :: "platform \<Rightarrow> string \<Rightarrow> url \<Rightarrow> string \<Rightarrow> string + string" where
  "rewriteHTML P htmlContent base origin =
     (case html_Parse P htmlContent of
        Inl err \<Rightarrow> Inl err
      | Inr doc \<Rightarrow> html_Render P (traverse P base origin doc))"


section \<open>The request handler\<close>

record exchange =
  sent :: "upstream_request option"
  reply :: response_writer

datatype strategy = RewriteHtml | RewriteCss | RewriteJs | PassThrough

definition ReadAll :: "response \<Rightarrow> string + string" where
  "ReadAll resp = (case resp_Body_err resp of None \<Rightarrow> Inr (resp_Body resp) | Some err \<Rightarrow> Inl err)"

definition io_Copy :: "response \<Rightarrow> response_writer \<Rightarrow> response_writer" where
  "io_Copy resp w = (if resp_Body resp = [] then w else Write (resp_Body resp) w)"

definition copy_request_headers ::
  "platform \<Rightarrow> bool \<Rightarrow> header \<Rightarrow> header_map \<Rightarrow> header_map" where
  "copy_request_headers P browseEnabled hdr h0 =
     fold (\<lambda>(key, values) h.
             let keyLower = strings_ToLower P key in
             if keyLower = ''host'' then h
             else if browseEnabled \<and> keyLower = ''accept-encoding'' then h
             else fold (\<lambda>value h'. header_Add key value h') values h)
          hdr h0"

definition copyHeaders ::
  "platform \<Rightarrow> bool \<Rightarrow> response \<Rightarrow> response_writer \<Rightarrow> response_writer" where
  "copyHeaders P browseEnabled resp w =
     w\<lparr>w_Header :=
         fold (\<lambda>(key, values) h.
                 if browseEnabled \<and> strings_ToLower P key = ''content-length'' then h
                 else fold (\<lambda>value h'. header_Add key value h') values h)
              (resp_Header resp) (w_Header w)\<rparr>"

definition classify :: "bool \<Rightarrow> string \<Rightarrow> strategy" where
  "classify browseEnabled contentType =
     (if browseEnabled \<and> strings_HasPrefix contentType ''text/html'' then RewriteHtml
      else if browseEnabled \<and> strings_HasPrefix contentType ''text/css'' then RewriteCss
      else if browseEnabled \<and> (strings_HasPrefix contentType ''application/javascript''
                                 \<or> strings_HasPrefix contentType ''text/javascript'')
      then RewriteJs
      else PassThrough)"

definition emit_rewritten ::
  "platform \<Rightarrow> bool \<Rightarrow> response \<Rightarrow> response_writer \<Rightarrow> string \<Rightarrow> string \<Rightarrow> (string \<Rightarrow> string + string)
   \<Rightarrow> response_writer" where
  "emit_rewritten P browseEnabled resp w readMsg rewriteMsg rewriter =
     (case ReadAll resp of
        Inl err \<Rightarrow> http_Error w readMsg 500
      | Inr bodyBytes \<Rightarrow>
          (case rewriter bodyBytes of
             Inl err \<Rightarrow> http_Error w (rewriteMsg @ err) 500
           | Inr rewritten \<Rightarrow>
               Write rewritten (WriteHeader (StatusCode resp) (copyHeaders P browseEnabled resp w))))"

definition emit_response ::
  "platform \<Rightarrow> request \<Rightarrow> url \<Rightarrow> bool \<Rightarrow> response \<Rightarrow> response_writer \<Rightarrow> response_writer" where
  "emit_response P r parsedURL browseEnabled resp w =
     (let origin = (if TLS r then ''https://'' @ RHost r else ''http://'' @ RHost r);
          contentType = header_Get (resp_Header resp) ''Content-Type''
      in case classify browseEnabled contentType of
           RewriteHtml \<Rightarrow>
             emit_rewritten P browseEnabled resp w ''Error reading upstream HTML''
               ''Error rewriting HTML: '' (\<lambda>bodyBytes. rewriteHTML P bodyBytes parsedURL origin)
         | RewriteCss \<Rightarrow>
             emit_rewritten P browseEnabled resp w ''Error reading upstream CSS''
               ''Error rewriting CSS: '' (\<lambda>bodyBytes. rewriteCSS P bodyBytes parsedURL origin)
         | RewriteJs \<Rightarrow>
             emit_rewritten P browseEnabled resp w ''Error reading upstream JavaScript''
               ''Error rewriting JavaScript: '' (\<lambda>bodyBytes. rewriteJS P bodyBytes parsedURL origin)
         | PassThrough \<Rightarrow>
             io_Copy resp (WriteHeader (StatusCode resp) (copyHeaders P browseEnabled resp w)))"

definition proxyHandler :: "platform \<Rightarrow> request \<Rightarrow> exchange" where
  "proxyHandler P r =
     (let w = new_writer; encodedURL = strings_TrimPrefix (URL_Path r) ''/'' in
      if encodedURL = []
      then \<lparr>sent = None, reply = http_Error w ''Missing encoded URL'' 400\<rparr>
      else
        (case DecodeString encodeURL encodedURL of
           Inl err \<Rightarrow>
             \<lparr>sent = None,
              reply = http_Error w (''Invalid base64 encoding: '' @ b64_Error err) 400\<rparr>
         | Inr upstreamURL \<Rightarrow>
             (case url_Parse P upstreamURL of
                Inl err \<Rightarrow> \<lparr>sent = None, reply = http_Error w ''Invalid upstream URL'' 400\<rparr>
              | Inr parsedURL \<Rightarrow>
                  if Scheme parsedURL = [] \<or> Host parsedURL = []
                  then \<lparr>sent = None, reply = http_Error w ''Invalid upstream URL'' 400\<rparr>
                  else
                    (let browseEnabled = (values_Get (URL_Query r) ''browse'' \<noteq> []) in
                     case http_NewRequest_err P (Method r) upstreamURL of
                       Some err \<Rightarrow>
                         \<lparr>sent = None,
                          reply = http_Error w (''Failed to create upstream request: '' @ err) 500\<rparr>
                     | None \<Rightarrow>
                         (let req = \<lparr>req_Method = Method r, req_URL = upstreamURL,
                                     req_Header = copy_request_headers P browseEnabled (Header r) Map.empty,
                                     req_Body = Body r\<rparr>
                          in case client_Do P req of
                               Inl err \<Rightarrow>
                                 \<lparr>sent = Some req,
                                  reply = http_Error w (''Upstream request failed: '' @ err) 500\<rparr>
                             | Inr resp \<Rightarrow>
                                 \<lparr>sent = Some req,
                                  reply = emit_response P r parsedURL browseEnabled resp w\<rparr>)))))"

definition proxyHandler_main_go :: "platform \<Rightarrow> request \<Rightarrow> exchange" where
  "proxyHandler_main_go P r =
     (let w = new_writer; encodedURL = strings_TrimPrefix (URL_Path r) ''/'' in
      if encodedURL = []
      then \<lparr>sent = None, reply = http_Error w ''Missing encoded URL'' 400\<rparr>
      else
        (case DecodeString encodeStd encodedURL of
           Inl err \<Rightarrow>
             \<lparr>sent = None,
              reply = http_Error w (''Invalid base64 encoding: '' @ b64_Error err) 400\<rparr>
         | Inr upstreamURL \<Rightarrow>
             (case url_Parse P upstreamURL of
                Inl err \<Rightarrow> \<lparr>sent = None, reply = http_Error w ''Invalid upstream URL'' 400\<rparr>
              | Inr parsedURL \<Rightarrow>
                  if Scheme parsedURL = [] \<or> Host parsedURL = []
                  then \<lparr>sent = None, reply = http_Error w ''Invalid upstream URL'' 400\<rparr>
                  else
                    (case http_NewRequest_err P (Method r) upstreamURL of
                       Some err \<Rightarrow>
                         \<lparr>sent = None,
                          reply = http_Error w (''Failed to create upstream request: '' @ err) 500\<rparr>
                     | None \<Rightarrow>
                         (let req = \<lparr>req_Method = Method r, req_URL = upstreamURL,
                                     req_Header = copy_request_headers P False (Header r) Map.empty,
                                     req_Body = Body r\<rparr>
                          in case client_Do P req of
                               Inl err \<Rightarrow>
                                 \<lparr>sent = Some req,
                                  reply = http_Error w (''Upstream request failed: '' @ err) 500\<rparr>
                             | Inr resp \<Rightarrow>
                                 \<lparr>sent = Some req,
                                  reply = io_Copy resp (WriteHeader (StatusCode resp)
                                            (copyHeaders P False resp w))\<rparr>)))))"


section \<open>Observers used to state the properties\<close>

definition shouldEscape_PathSegment :: "char \<Rightarrow> bool" where
  "shouldEscape_PathSegment c =
     (let n = (of_char c :: nat) in
      if (97 \<le> n \<and> n \<le> 122) \<or> (65 \<le> n \<and> n \<le> 90) \<or> (48 \<le> n \<and> n \<le> 57) then False
      else if c \<in> set ''-_.~'' then False
      else if c \<in> set ''$&+,/:;=?@''
      then c = CHR ''/'' \<or> c = CHR '';'' \<or> c = CHR '','' \<or> c = CHR ''?''
      else True)"

definition classify_spec :: "bool \<Rightarrow> string \<Rightarrow> strategy" where
  "classify_spec rewrite_mode content_type =
     (if \<not> rewrite_mode then PassThrough
      else let t = toLower_ascii content_type in
           if prefix ''text/html'' t then RewriteHtml
           else if prefix ''text/css'' t then RewriteCss
           else if prefix ''application/javascript'' t \<or> prefix ''text/javascript'' t then RewriteJs
           else PassThrough)"

definition browse_of :: "request \<Rightarrow> bool" where
  "browse_of r = (values_Get (URL_Query r) ''browse'' \<noteq> [])"

definition origin_of :: "request \<Rightarrow> string" where
  "origin_of r = (if TLS r then ''https://'' @ RHost r else ''http://'' @ RHost r)"

definition target :: "platform \<Rightarrow> request \<Rightarrow> (string \<times> url) option" where
  "target P r =
     (let seg = strings_TrimPrefix (URL_Path r) ''/'' in
      if seg = [] then None
      else case DecodeString encodeURL seg of
             Inl err \<Rightarrow> None
           | Inr u \<Rightarrow>
               (case url_Parse P u of
                  Inl err \<Rightarrow> None
                | Inr p \<Rightarrow> if Scheme p = [] \<or> Host p = [] then None else Some (u, p)))"

definition upstream_result :: "platform \<Rightarrow> request \<Rightarrow> string \<Rightarrow> string + response" where
  "upstream_result P r u =
     (case http_NewRequest_err P (Method r) u of
        Some err \<Rightarrow> Inl err
      | None \<Rightarrow>
          client_Do P \<lparr>req_Method = Method r, req_URL = u,
                       req_Header = copy_request_headers P (browse_of r) (Header r) Map.empty,
                       req_Body = Body r\<rparr>)"

definition strategy_of :: "request \<Rightarrow> response \<Rightarrow> strategy" where
  "strategy_of r resp = classify (browse_of r) (header_Get (resp_Header resp) ''Content-Type'')"

definition body_failure :: "platform \<Rightarrow> request \<Rightarrow> url \<Rightarrow> response \<Rightarrow> bool" where
  "body_failure P r p resp =
     (strategy_of r resp \<noteq> PassThrough
      \<and> (resp_Body_err resp \<noteq> None
         \<or> (strategy_of r resp = RewriteHtml
            \<and> (case rewriteHTML P (resp_Body resp) p (origin_of r) of
                  Inl err \<Rightarrow> True | Inr out \<Rightarrow> False))))"

definition is_ascii :: "string \<Rightarrow> bool" where
  "is_ascii s = list_all (\<lambda>c. (of_char c :: nat) < 128) s"

definition lower_on_ascii :: "platform \<Rightarrow> bool" where
  "lower_on_ascii P = (\<forall>s. is_ascii s \<longrightarrow> strings_ToLower P s = toLower_ascii s)"

definition header_values :: "header_map \<Rightarrow> string \<Rightarrow> string list" where
  "header_values h k = (case h k of None \<Rightarrow> [] | Some vs \<Rightarrow> vs)"

definition canonical_header :: "header \<Rightarrow> bool" where
  "canonical_header h =
     (distinct (map fst h) \<and> list_all (\<lambda>(k, vs). CanonicalMIMEHeaderKey k = k) h)"

definition sample_url_Parse :: "string \<Rightarrow> string + url" where
  "sample_url_Parse s =
     (if CHR ''%'' \<in> set s then Inl ''invalid URL escape''
      else Inr \<lparr>Scheme = (if prefix ''https://'' s then ''https''
                          else if prefix ''http://'' s then ''http''
                          else if prefix ''mailto:'' s then ''mailto'' else []),
                Opaque = (if prefix ''mailto:'' s then drop 7 s else []),
                Host = (if prefix ''https://'' s then takeWhile (\<lambda>c. c \<noteq> CHR ''/'') (drop 8 s)
                        else if prefix ''http://'' s then takeWhile (\<lambda>c. c \<noteq> CHR ''/'') (drop 7 s)
                        else []),
                Path = (if prefix ''https://'' s then dropWhile (\<lambda>c. c \<noteq> CHR ''/'') (drop 8 s)
                        else if prefix ''http://'' s then dropWhile (\<lambda>c. c \<noteq> CHR ''/'') (drop 7 s)
                        else if prefix ''mailto:'' s then [] else s),
                RawQuery = [], Fragment = []\<rparr>)"

definition sample_url_String :: "url \<Rightarrow> string" where
  "sample_url_String u =
     (if Opaque u \<noteq> [] then Scheme u @ '':'' @ Opaque u
      else (if Scheme u = [] then [] else Scheme u @ ''://'') @ Host u @ Path u)"

definition sample_url_ResolveReference :: "url \<Rightarrow> url \<Rightarrow> url" where
  "sample_url_ResolveReference base ref =
     (if Scheme ref \<noteq> [] then ref
      else ref\<lparr>Scheme := Scheme base, Host := Host base\<rparr>)"

definition sample_platform :: "(string + response) \<Rightarrow> platform" where
  "sample_platform upstream =
     \<lparr>strings_ToLower = toLower_ascii,
      url_Parse = sample_url_Parse,
      url_ResolveReference = sample_url_ResolveReference,
      url_String = sample_url_String,
      html_Parse = (\<lambda>s. Inr (Node DocumentNode [] [] [Node TextNode s [] []])),
      html_Render = (\<lambda>n. Inr (concat (map Data (Children n)))),
      http_NewRequest_err = (\<lambda>m u. None),
      client_Do = (\<lambda>req. upstream)\<rparr>"

definition sample_request :: "string \<Rightarrow> bool \<Rightarrow> request" where
  "sample_request path browse =
     \<lparr>Method = ''GET'', URL_Path = path,
      URL_Query = (if browse then [''browse'' \<mapsto> [''1'']] else Map.empty),
      Header = [(''Accept'', [''*/*'']), (''Accept-Encoding'', [''gzip''])],
      Body = [], RHost = ''proxy.test'', TLS = False\<rparr>"


definition sample_response :: "string \<Rightarrow> string option \<Rightarrow> response" where
  "sample_response contentType err =
     \<lparr>StatusCode = 200,
      resp_Header = [(''Content-Type'', [contentType]), (''Content-Length'', [''7'']),
                     (''X-Upstream'', [''a'', ''b''])],
      resp_Body = ''partial'', resp_Body_err = err\<rparr>"


fun all_attrs :: "node \<Rightarrow> attribute list" where
  "all_attrs (Node t d attrs cs) = attrs @ concat (map all_attrs cs)"

fun element_attrs :: "node \<Rightarrow> attribute list" where
  "element_attrs (Node t d attrs cs) =
     (if t = ElementNode then attrs else []) @ concat (map element_attrs cs)"


definition sample_base :: url where
  "sample_base = \<lparr>Scheme = ''http'', Opaque = [], Host = ''e.com'', Path = ''/'', RawQuery = [],
                  Fragment = []\<rparr>"

definition sample_doc :: node where
  "sample_doc =
     Node DocumentNode [] []
       [Node ElementNode ''a''
          [Attribute [] ''href'' ''mailto:a@b.c'',
           Attribute [] ''alt'' ''x'',
           Attribute [] ''SRC'' ''data:image/png;base64,AA==''] []]"

lemma bit_of_char_nat: "bit (of_char c :: nat) n \<Longrightarrow> n < 8"
proof -
  have "take_bit 8 (of_char c :: nat) = of_char c"
    by (simp add: take_bit_eq_mod)
  then show "bit (of_char c :: nat) n \<Longrightarrow> n < 8"
    by (metis bit_take_bit_iff)
qed

lemma bit_of_char_hi: "8 \<le> n \<Longrightarrow> \<not> bit (of_char c :: nat) n"
  using bit_of_char_nat[of c n] by auto

lemma reassemble:
  fixes v :: nat
  assumes hi: "\<And>n. bit v n \<Longrightarrow> n < 24"
  shows "push_bit 18 (drop_bit 18 v AND 0x3F) OR push_bit 12 (drop_bit 12 v AND 0x3F)
        OR push_bit 6 (drop_bit 6 v AND 0x3F) OR (v AND 0x3F) = v"
proof -
  have m: "(0x3F :: nat) = mask 6" by (simp add: mask_eq_exp_minus_1)
  show ?thesis
    unfolding m
  proof (rule bit_eqI)
    fix n :: nat
    consider "n < 6" | "6 \<le> n" "n < 12" | "12 \<le> n" "n < 18" | "18 \<le> n" "n < 24" | "24 \<le> n"
      by linarith
    then show "bit (push_bit 18 (drop_bit 18 v AND mask 6) OR
              push_bit 12 (drop_bit 12 v AND mask 6) OR
              push_bit 6 (drop_bit 6 v AND mask 6) OR
              (v AND mask 6)) n = bit v n"
    proof cases
      case 1 then show ?thesis by (auto simp add: bit_simps)
    next
      case 2 then show ?thesis by (auto simp add: bit_simps)
    next
      case 3 then show ?thesis by (auto simp add: bit_simps)
    next
      case 4 then show ?thesis by (auto simp add: bit_simps)
    next
      case 5 then show ?thesis using hi[of n] by (auto simp add: bit_simps)
    qed
  qed
qed

lemma val_hi:
  "bit (push_bit 16 (of_char a) OR push_bit 8 (of_char b) OR (of_char c :: nat)) n \<Longrightarrow> n < 24"
  by (auto simp add: bit_simps dest!: bit_of_char_nat)

lemma quantum_bytes:
  fixes a b c :: char
  defines "val \<equiv> push_bit 16 (of_char a) OR push_bit 8 (of_char b) OR (of_char c :: nat)"
  shows "char_of (drop_bit 16 val) = a" "char_of (drop_bit 8 val) = b" "char_of val = c"
proof -
  have "take_bit 8 (drop_bit 16 val) = (of_char a :: nat)"
    unfolding val_def by (rule bit_eqI) (auto simp add: bit_simps bit_of_char_hi dest: bit_of_char_nat)
  then show "char_of (drop_bit 16 val) = a" by (simp add: char_of_eq_iff)
  have "take_bit 8 (drop_bit 8 val) = (of_char b :: nat)"
    unfolding val_def by (rule bit_eqI) (auto simp add: bit_simps bit_of_char_hi dest: bit_of_char_nat)
  then show "char_of (drop_bit 8 val) = b" by (simp add: char_of_eq_iff)
  have "take_bit 8 val = (of_char c :: nat)"
    unfolding val_def by (rule bit_eqI) (auto simp add: bit_simps bit_of_char_hi dest: bit_of_char_nat)
  then show "char_of val = c" by (simp add: char_of_eq_iff)
qed

lemma sextet_lt: "(v::nat) AND 0x3F < 64"
proof -
  have "v AND mask 6 = take_bit 6 v" by (simp add: take_bit_eq_mask)
  also have "\<dots> < 2 ^ 6" by (rule take_bit_nat_less_exp)
  finally show ?thesis by (simp add: mask_eq_exp_minus_1)
qed

lemma decodeMap_nth:
  assumes "distinct alphabet" "i < length alphabet"
  shows "decodeMap alphabet (alphabet ! i) = Some i"
  using assms unfolding decodeMap_def
  by (simp add: map_of_zip_nth)

lemma decodeMap_enc_char:
  assumes "distinct alphabet" "length alphabet = 64"
  shows "decodeMap alphabet (enc_char alphabet v) = Some (v AND 0x3F)"
  unfolding enc_char_def using assms sextet_lt[of v] by (simp add: decodeMap_nth)

lemma decodeMap_pad:
  assumes "CHR ''='' \<notin> set alphabet"
  shows "decodeMap alphabet CHR ''='' = None"
  unfolding decodeMap_def using assms
  by (metis length_upt map_of_zip_is_None minus_nat.diff_0)

lemma low_zero2: "(push_bit 16 (a::nat) OR push_bit 8 b) AND 0x3F = 0"
proof -
  have "(push_bit 16 a OR push_bit 8 b) AND mask 6 = 0"
    by (rule bit_eqI) (auto simp add: bit_simps)
  then show ?thesis by (simp add: mask_eq_exp_minus_1)
qed

lemma low_zero1:
  "push_bit 16 (a::nat) AND 0x3F = 0" "drop_bit 6 (push_bit 16 (a::nat)) AND 0x3F = 0"
proof -
  have "push_bit 16 a AND mask 6 = 0"
    by (rule bit_eqI) (auto simp add: bit_simps)
  then show "push_bit 16 (a::nat) AND 0x3F = 0" by (simp add: mask_eq_exp_minus_1)
  have "drop_bit 6 (push_bit 16 a) AND mask 6 = 0"
    by (rule bit_eqI) (auto simp add: bit_simps)
  then show "drop_bit 6 (push_bit 16 (a::nat)) AND 0x3F = 0" by (simp add: mask_eq_exp_minus_1)
qed

lemma quantumBytes4:
  "quantumBytes [s0, s1, s2, s3] =
     [char_of (drop_bit 16 (push_bit 18 s0 OR push_bit 12 s1 OR push_bit 6 s2 OR s3)),
      char_of (drop_bit 8 (push_bit 18 s0 OR push_bit 12 s1 OR push_bit 6 s2 OR s3)),
      char_of (push_bit 18 s0 OR push_bit 12 s1 OR push_bit 6 s2 OR s3)]"
  by (simp add: quantumBytes_def)

lemma quantumBytes3:
  "quantumBytes [s0, s1, s2] =
     [char_of (drop_bit 16 (push_bit 18 s0 OR push_bit 12 s1 OR push_bit 6 s2 OR 0)),
      char_of (drop_bit 8 (push_bit 18 s0 OR push_bit 12 s1 OR push_bit 6 s2 OR 0))]"
  by (simp add: quantumBytes_def)

lemma quantumBytes2:
  "quantumBytes [s0, s1] =
     [char_of (drop_bit 16 (push_bit 18 s0 OR push_bit 12 s1 OR push_bit 6 0 OR 0))]"
  by (simp add: quantumBytes_def)

lemma quantum3:
  fixes a b c :: char
  defines "val \<equiv> push_bit 16 (of_char a) OR push_bit 8 (of_char b) OR (of_char c :: nat)"
  shows "quantumBytes [drop_bit 18 val AND 0x3F, drop_bit 12 val AND 0x3F,
                       drop_bit 6 val AND 0x3F, val AND 0x3F] = [a, b, c]"
proof -
  have r: "push_bit 18 (drop_bit 18 val AND 0x3F) OR push_bit 12 (drop_bit 12 val AND 0x3F)
        OR push_bit 6 (drop_bit 6 val AND 0x3F) OR (val AND 0x3F) = val"
    by (rule reassemble) (simp only: val_def val_hi)
  show ?thesis
    by (simp only: quantumBytes4 r) (simp only: val_def quantum_bytes)
qed

lemma quantum2:
  fixes a b :: char
  defines "val \<equiv> push_bit 16 (of_char a) OR push_bit 8 (of_char b :: nat)"
  shows "quantumBytes [drop_bit 18 val AND 0x3F, drop_bit 12 val AND 0x3F,
                       drop_bit 6 val AND 0x3F] = [a, b]"
proof -
  have v: "val = push_bit 16 (of_char a) OR push_bit 8 (of_char b) OR (of_char (CHR 0x00) :: nat)"
    by (simp add: val_def)
  have r: "push_bit 18 (drop_bit 18 val AND 0x3F) OR push_bit 12 (drop_bit 12 val AND 0x3F)
        OR push_bit 6 (drop_bit 6 val AND 0x3F) OR (val AND 0x3F) = val"
    by (rule reassemble) (simp only: v val_hi)
  have z: "val AND 0x3F = 0" unfolding val_def by (rule low_zero2)
  show ?thesis
    by (simp only: quantumBytes3 r[unfolded z]) (simp only: v quantum_bytes)
qed

lemma quantum1:
  fixes a :: char
  defines "val \<equiv> push_bit 16 (of_char a :: nat)"
  shows "quantumBytes [drop_bit 18 val AND 0x3F, drop_bit 12 val AND 0x3F] = [a]"
proof -
  have v: "val = push_bit 16 (of_char a) OR push_bit 8 (of_char (CHR 0x00))
                 OR (of_char (CHR 0x00) :: nat)"
    by (simp add: val_def)
  have r: "push_bit 18 (drop_bit 18 val AND 0x3F) OR push_bit 12 (drop_bit 12 val AND 0x3F)
        OR push_bit 6 (drop_bit 6 val AND 0x3F) OR (val AND 0x3F) = val"
    by (rule reassemble) (simp only: v val_hi)
  have z: "val AND 0x3F = 0" "drop_bit 6 val AND 0x3F = 0"
    unfolding val_def by (rule low_zero1)+
  show ?thesis
    by (simp only: quantumBytes2 r[unfolded z]) (simp only: v quantum_bytes)
qed

lemma decode4:
  assumes "distinct alphabet" "length alphabet = 64"
  shows "decodeLoop alphabet [] si (enc_char alphabet v0 # enc_char alphabet v1
           # enc_char alphabet v2 # enc_char alphabet v3 # rest) =
         (case decodeLoop alphabet [] (Suc (Suc (Suc (Suc si)))) rest of Inl e \<Rightarrow> Inl e
          | Inr r \<Rightarrow> Inr (quantumBytes [v0 AND 0x3F, v1 AND 0x3F, v2 AND 0x3F, v3 AND 0x3F] @ r))"
  using assms by (simp add: decodeMap_enc_char split: sum.splits)

lemma decode3:
  assumes "distinct alphabet" "length alphabet = 64" "CHR ''='' \<notin> set alphabet"
  shows "decodeLoop alphabet [] si
           [enc_char alphabet v0, enc_char alphabet v1, enc_char alphabet v2, CHR ''='']
         = Inr (quantumBytes [v0 AND 0x3F, v1 AND 0x3F, v2 AND 0x3F])"
  using assms by (simp add: decodeMap_enc_char decodeMap_pad isNewline_def)

lemma decode2:
  assumes "distinct alphabet" "length alphabet = 64" "CHR ''='' \<notin> set alphabet"
  shows "decodeLoop alphabet [] si
           [enc_char alphabet v0, enc_char alphabet v1, CHR ''='', CHR ''='']
         = Inr (quantumBytes [v0 AND 0x3F, v1 AND 0x3F])"
  using assms by (simp add: decodeMap_enc_char decodeMap_pad isNewline_def)

lemma decode_encode_loop:
  assumes "distinct alphabet" "length alphabet = 64" "CHR ''='' \<notin> set alphabet"
  shows "decodeLoop alphabet [] si (encodeLoop alphabet src) = Inr src"
  using assms
proof (induction alphabet src arbitrary: si rule: encodeLoop.induct)
  case (1 alphabet a b c src)
  then have ih: "decodeLoop alphabet [] (Suc (Suc (Suc (Suc si)))) (encodeLoop alphabet src) = Inr src"
    by simp
  show ?case
    by (simp only: encodeLoop.simps Let_def decode4[OF 1(2,3)] ih quantum3 sum.case
          append_Cons append_Nil)
next
  case (2 alphabet a b)
  show ?case
    by (simp only: encodeLoop.simps Let_def decode3[OF 2] quantum2)
next
  case (3 alphabet a)
  show ?case
    by (simp only: encodeLoop.simps Let_def decode2[OF 3] quantum1)
next
  case (4 alphabet)
  then show ?case by simp
qed

lemma encodeURL_wf: "distinct encodeURL" "length encodeURL = 64" "CHR ''='' \<notin> set encodeURL"
  by (simp_all add: encodeURL_def)

lemma URLEncoding_roundtrip: "DecodeString encodeURL (EncodeToString encodeURL u) = Inr u"
  unfolding DecodeString_def EncodeToString_def
  by (rule decode_encode_loop) (rule encodeURL_wf)+

lemma enc_char_mem: "length alphabet = 64 \<Longrightarrow> enc_char alphabet v \<in> set alphabet"
  unfolding enc_char_def using sextet_lt[of v] by simp

lemma encodeLoop_chars:
  "length alphabet = 64 \<Longrightarrow> set (encodeLoop alphabet src) \<subseteq> set alphabet \<union> {CHR ''=''}"
  by (induction alphabet src rule: encodeLoop.induct) (simp_all add: Let_def enc_char_mem)

lemma url_alphabet_safe:
  "\<forall>c \<in> set encodeURL \<union> {CHR ''=''}. \<not> shouldEscape_PathSegment c \<and> c \<noteq> CHR ''/'' \<and> c \<noteq> CHR ''+''"
  by (simp add: encodeURL_def shouldEscape_PathSegment_def)

text \<open>
  Claim C3. Every character of the opaque address that the rewriters produce
  (\<open>base64.URLEncoding.EncodeToString\<close>) is a letter, a digit, \<open>-\<close>, \<open>_\<close> or the padding
  character \<open>=\<close>. None of them is \<open>/\<close> or \<open>+\<close>, and none of them is a character that
  \<open>net/url\<close> escapes in a path segment; in particular the padding needs no escaping.
\<close>

theorem C3_address_chars_path_safe:
  "\<forall>c \<in> set (EncodeToString encodeURL u).
     (c \<in> set encodeURL \<or> c = CHR ''='')
     \<and> \<not> shouldEscape_PathSegment c \<and> c \<noteq> CHR ''/'' \<and> c \<noteq> CHR ''+''"
proof
  fix c assume "c \<in> set (EncodeToString encodeURL u)"
  then have "c \<in> set encodeURL \<union> {CHR ''=''}"
    using encodeLoop_chars[OF encodeURL_wf(2), of u] by (auto simp add: EncodeToString_def)
  then show "(c \<in> set encodeURL \<or> c = CHR ''='')
     \<and> \<not> shouldEscape_PathSegment c \<and> c \<noteq> CHR ''/'' \<and> c \<noteq> CHR ''+''"
    using url_alphabet_safe by blast
qed

text \<open>
  Claim C3 at the address of \<open>https://example.com\<close>, which ends in padding.
\<close>

theorem C3_witness:
  "CHR ''='' \<in> set (EncodeToString encodeURL ''https://example.com'')
   \<and> \<not> shouldEscape_PathSegment CHR ''='' \<and> CHR ''='' \<noteq> CHR ''/'' \<and> CHR ''='' \<noteq> CHR ''+''"
proof -
  have h: "CHR ''='' \<in> set (EncodeToString encodeURL ''https://example.com'')"
    by (simp add: EncodeToString_def enc_char_def encodeURL_def)
  from bspec[OF C3_address_chars_path_safe h] h show ?thesis
    by (simp only: simp_thms)
qed

lemma d1: "DecodeString encodeStd (EncodeToString encodeURL ''http://a.b/?x=1'') = Inl (CorruptInputError 15)"
  by (simp add: EncodeToString_def enc_char_def encodeURL_def DecodeString_def decodeMap_def encodeStd_def isNewline_def)

lemma w_Status_http_Error [simp]: "w_Status (http_Error new_writer msg code) = Some code"
  by (simp add: http_Error_def Write_def WriteHeader_def new_writer_def)

lemma w_Status_copyHeaders [simp]: "w_Status (copyHeaders P b resp w) = w_Status w"
  by (simp add: copyHeaders_def)

lemma w_Status_Write_WriteHeader [simp]:
  "w_Status w = None \<Longrightarrow> w_Status (Write bs (WriteHeader code w)) = Some code"
  by (simp add: Write_def WriteHeader_def)

lemma w_Status_io_Copy_WriteHeader [simp]:
  "w_Status w = None \<Longrightarrow> w_Status (io_Copy resp (WriteHeader code w)) = Some code"
  by (simp add: io_Copy_def Write_def WriteHeader_def)

lemma w_Status_new_writer [simp]: "w_Status new_writer = None"
  by (simp add: new_writer_def)

lemma rewriteCSS_succeeds: "\<exists>out. rewriteCSS P content base origin = Inr out"
  by (simp add: rewriteCSS_def Let_def)

lemma rewriteJS_succeeds: "\<exists>out. rewriteJS P content base origin = Inr out"
  by (simp add: rewriteJS_def Let_def)



lemma proxyHandler_relay:
  assumes "target P r = Some (u, p)" "http_NewRequest_err P (Method r) u = None"
  defines "req \<equiv> \<lparr>req_Method = Method r, req_URL = u,
                    req_Header = copy_request_headers P (browse_of r) (Header r) Map.empty,
                    req_Body = Body r\<rparr>"
  shows "sent (proxyHandler P r) = Some req"
    and "client_Do P req = Inr resp \<Longrightarrow>
         reply (proxyHandler P r) = emit_response P r p (browse_of r) resp new_writer"
  using assms(1,2) unfolding req_def
  by (auto simp add: proxyHandler_def target_def Let_def browse_of_def
        split: sum.splits option.splits if_splits)

lemma sample_target:
  "target (sample_platform up) (sample_request (''/'' @ EncodeToString encodeURL ''http://e.com/'') b)
   = Some (''http://e.com/'',
           \<lparr>Scheme = ''http'', Opaque = [], Host = ''e.com'', Path = ''/'', RawQuery = [],
            Fragment = []\<rparr>)"
proof -
  have "EncodeToString encodeURL ''http://e.com/'' \<noteq> []"
    by (simp add: EncodeToString_def)
  then show ?thesis
    by (simp add: target_def sample_request_def strings_TrimPrefix_def URLEncoding_roundtrip
          sample_platform_def sample_url_Parse_def)
qed

lemma sample_browse [simp]: "browse_of (sample_request path b) = b"
  by (simp add: browse_of_def sample_request_def values_Get_def)


text \<open>
  Claim C2 as stated fails on a media type written in upper case: a case-insensitive prefix
  match selects the HTML rewriter, the handler passes the body through.
\<close>

theorem C2_counterexample:
  "classify True ''TEXT/HTML; charset=utf-8'' = PassThrough
   \<and> classify_spec True ''TEXT/HTML; charset=utf-8'' = RewriteHtml"
  by (simp add: classify_def classify_spec_def strings_HasPrefix_def toLower_ascii_def
        toLower_byte_def char_of_def bit_0)

lemma prefix_excl:
  "prefix ''text/html'' t \<Longrightarrow> \<not> prefix ''text/css'' t"
  "prefix ''text/html'' t \<Longrightarrow> \<not> prefix ''application/javascript'' t"
  "prefix ''text/html'' t \<Longrightarrow> \<not> prefix ''text/javascript'' t"
  "prefix ''text/css'' t \<Longrightarrow> \<not> prefix ''application/javascript'' t"
  "prefix ''text/css'' t \<Longrightarrow> \<not> prefix ''text/javascript'' t"
  by (auto simp add: prefix_def)

text \<open>
  Claim C2, amended. With rewrite mode off the strategy is always pass-through. With rewrite
  mode on it is chosen by a case-sensitive prefix match on the \<open>Content-Type\<close> value:
  \<open>text/html\<close> selects HTML, \<open>text/css\<close> CSS, \<open>application/javascript\<close> or
  \<open>text/javascript\<close> JS, and anything else pass-through.
\<close>

theorem C2_classify_case_sensitive:
  "classify False t = PassThrough
   \<and> (classify True t = RewriteHtml) = prefix ''text/html'' t
   \<and> (classify True t = RewriteCss) = prefix ''text/css'' t
   \<and> (classify True t = RewriteJs)
       = (prefix ''application/javascript'' t \<or> prefix ''text/javascript'' t)
   \<and> (classify True t = PassThrough)
       = (\<not> (prefix ''text/html'' t \<or> prefix ''text/css'' t
              \<or> prefix ''application/javascript'' t \<or> prefix ''text/javascript'' t))"
  using prefix_excl[of t]
  by (auto simp add: classify_def strings_HasPrefix_def)

text \<open>
  Claim C1. The rewriters encode with the URL-safe alphabet. The handler of \<open>main.go\<close> decodes
  with the standard alphabet, so the address of \<open>http://a.b/?x=1\<close>, which contains \<open>_\<close>, is
  rejected at byte 15 and answered with 400; the handler that decodes with the URL-safe alphabet
  recovers the URL (lemma \<open>URLEncoding_roundtrip\<close> shows this for every URL).
\<close>

theorem C1_main_go_rejects_rewritten_address:
  "DecodeString encodeStd (EncodeToString encodeURL ''http://a.b/?x=1'')
     = Inl (CorruptInputError 15)
   \<and> w_Status (reply (proxyHandler_main_go P
        (r\<lparr>URL_Path := ''/'' @ EncodeToString encodeURL ''http://a.b/?x=1''\<rparr>))) = Some 400
   \<and> DecodeString encodeURL (EncodeToString encodeURL ''http://a.b/?x=1'')
     = Inr ''http://a.b/?x=1''"
proof -
  have e: "EncodeToString encodeURL ''http://a.b/?x=1'' = ''aHR0cDovL2EuYi8_eD0x''"
    by (simp add: EncodeToString_def enc_char_def encodeURL_def)
  have d: "DecodeString encodeStd ''aHR0cDovL2EuYi8_eD0x'' = Inl (CorruptInputError 15)"
    by (simp add: DecodeString_def decodeMap_def encodeStd_def isNewline_def)
  have "w_Status (reply (proxyHandler_main_go P (r\<lparr>URL_Path := ''/aHR0cDovL2EuYi8_eD0x''\<rparr>)))
          = Some 400"
    by (simp add: proxyHandler_main_go_def strings_TrimPrefix_def d)
  then show ?thesis
    using d by (simp add: e URLEncoding_roundtrip[of "''http://a.b/?x=1''", unfolded e])
qed

lemma canonical_Content_Type [simp]:
  "CanonicalMIMEHeaderKey ''Content-Type'' = ''Content-Type''"
  by (simp add: CanonicalMIMEHeaderKey_def validHeaderFieldByte_def toUpper_byte_def
        toLower_byte_def Let_def)

lemma canonical_Content_Length [simp]:
  "CanonicalMIMEHeaderKey ''Content-Length'' = ''Content-Length''"
  by (simp add: CanonicalMIMEHeaderKey_def validHeaderFieldByte_def toUpper_byte_def
        toLower_byte_def Let_def)

lemma canonical_X_Content_Type_Options [simp]:
  "CanonicalMIMEHeaderKey ''X-Content-Type-Options'' = ''X-Content-Type-Options''"
  by (simp add: CanonicalMIMEHeaderKey_def validHeaderFieldByte_def toUpper_byte_def
        toLower_byte_def Let_def)

lemma sample_strategy:
  "strategy_of (sample_request path b) (sample_response ct err) = classify b ct"
  by (simp add: strategy_of_def sample_response_def header_Get_def)


lemma header_values_Add:
  "header_values (header_Add key v h) k =
     (if CanonicalMIMEHeaderKey key = k then header_values h k @ [v] else header_values h k)"
  by (simp add: header_values_def header_Add_def Let_def)

lemma header_values_fold_Add:
  "header_values (fold (\<lambda>value h'. header_Add key value h') vs h) k =
     (if CanonicalMIMEHeaderKey key = k then header_values h k @ vs else header_values h k)"
  by (induction vs arbitrary: h) (simp_all add: header_values_Add)

lemma header_values_fold_entries:
  "header_values
     (fold (\<lambda>(key, values) h.
              if dropped key then h else fold (\<lambda>value h'. header_Add key value h') values h)
           hdr h0) k
   = header_values h0 k
     @ concat (map snd (filter (\<lambda>(key, values). \<not> dropped key \<and> CanonicalMIMEHeaderKey key = k) hdr))"
proof (induction hdr arbitrary: h0)
  case Nil
  then show ?case by simp
next
  case (Cons e hdr)
  obtain key vs where e: "e = (key, vs)" by (cases e)
  show ?case
    by (cases "dropped key") (simp_all add: Cons.IH header_values_fold_Add e)
qed

lemma canonical_entries:
  assumes "canonical_header hdr"
  shows "concat (map snd (filter (\<lambda>(key, values). \<not> dropped key \<and> CanonicalMIMEHeaderKey key = k) hdr))
         = (if dropped k then [] else (case map_of hdr k of None \<Rightarrow> [] | Some vs \<Rightarrow> vs))"
  using assms
proof (induction hdr)
  case Nil
  then show ?case by simp
next
  case (Cons e hdr)
  obtain key vs where e: "e = (key, vs)" by (cases e)
  from Cons.prems have c: "canonical_header hdr" and ck: "CanonicalMIMEHeaderKey key = key"
    and nk: "key \<notin> fst ` set hdr"
    by (auto simp add: canonical_header_def e)
  have none: "map_of hdr key = None"
    using nk by (simp add: map_of_eq_None_iff)
  have ca: "CanonicalMIMEHeaderKey a = a" if "(a, b) \<in> set hdr" for a b
    using c that by (auto simp add: canonical_header_def list_all_iff)
  have rest: "filter (\<lambda>(key', values). \<not> dropped key' \<and> CanonicalMIMEHeaderKey key' = key) hdr = []"
  proof (rule ccontr)
    assume "filter (\<lambda>(key', values). \<not> dropped key' \<and> CanonicalMIMEHeaderKey key' = key) hdr \<noteq> []"
    then obtain a b where ab: "(a, b) \<in> set hdr" "CanonicalMIMEHeaderKey a = key"
      by (auto simp add: filter_empty_conv)
    then have "a = key" using ca by simp
    then show False using ab(1) nk by (force simp add: image_iff)
  qed
  show ?case
  proof (cases "key = k")
    case True
    then show ?thesis using rest none ck by (simp add: e)
  next
    case False
    then show ?thesis using Cons.IH[OF c] ck by (simp add: e)
  qed
qed

lemma header_values_empty [simp]: "header_values Map.empty k = []"
  by (simp add: header_values_def)

lemma copy_request_headers_values:
  assumes "canonical_header hdr"
  shows "header_values (copy_request_headers P b hdr Map.empty) k =
     (if strings_ToLower P k = ''host'' \<or> (b \<and> strings_ToLower P k = ''accept-encoding'') then []
      else (case map_of hdr k of None \<Rightarrow> [] | Some vs \<Rightarrow> vs))"
proof -
  let ?dropped = "\<lambda>key. strings_ToLower P key = ''host'' \<or> (b \<and> strings_ToLower P key = ''accept-encoding'')"
  have "copy_request_headers P b hdr Map.empty =
        fold (\<lambda>(key, values) h.
                if ?dropped key then h else fold (\<lambda>value h'. header_Add key value h') values h)
             hdr Map.empty"
    unfolding copy_request_headers_def Let_def
    by (rule arg_cong[where f="\<lambda>f. fold f hdr Map.empty"]) (auto simp add: fun_eq_iff)
  then have "header_values (copy_request_headers P b hdr Map.empty) k =
        header_values Map.empty k
        @ concat (map snd (filter (\<lambda>(key, values). \<not> ?dropped key \<and> CanonicalMIMEHeaderKey key = k) hdr))"
    by (simp only: header_values_fold_entries)
  then show ?thesis
    by (simp only: canonical_entries[OF assms] header_values_empty append_Nil)
qed

lemma copyHeaders_values:
  assumes "canonical_header (resp_Header resp)"
  shows "header_values (w_Header (copyHeaders P b resp new_writer)) k =
     (if b \<and> strings_ToLower P k = ''content-length'' then []
      else (case map_of (resp_Header resp) k of None \<Rightarrow> [] | Some vs \<Rightarrow> vs))"
proof -
  let ?dropped = "\<lambda>key. b \<and> strings_ToLower P key = ''content-length''"
  have "w_Header (copyHeaders P b resp new_writer) =
        fold (\<lambda>(key, values) h.
                if ?dropped key then h else fold (\<lambda>value h'. header_Add key value h') values h)
             (resp_Header resp) Map.empty"
    by (simp add: copyHeaders_def new_writer_def)
  then have "header_values (w_Header (copyHeaders P b resp new_writer)) k =
        header_values Map.empty k
        @ concat (map snd (filter (\<lambda>(key, values). \<not> ?dropped key \<and> CanonicalMIMEHeaderKey key = k)
                             (resp_Header resp)))"
    by (simp only: header_values_fold_entries)
  then show ?thesis
    by (simp only: canonical_entries[OF assms] header_values_empty append_Nil)
qed

lemma w_Header_Write [simp]: "w_Header (Write bs w) = w_Header w"
  by (simp add: Write_def WriteHeader_def)

lemma w_Header_WriteHeader [simp]: "w_Header (WriteHeader c w) = w_Header w"
  by (simp add: WriteHeader_def)

lemma w_Header_io_Copy [simp]: "w_Header (io_Copy resp w) = w_Header w"
  by (simp add: io_Copy_def)

lemma emit_response_headers:
  assumes "\<not> body_failure P r p resp"
  shows "w_Header (emit_response P r p (browse_of r) resp new_writer)
         = w_Header (copyHeaders P (browse_of r) resp new_writer)"
proof (cases "strategy_of r resp")
  case RewriteHtml
  then show ?thesis using assms
    by (auto simp add: emit_response_def emit_rewritten_def body_failure_def strategy_of_def
          origin_of_def ReadAll_def split: option.splits sum.splits)
next
  case RewriteCss
  obtain out where "rewriteCSS P (resp_Body resp) p (origin_of r) = Inr out"
    using rewriteCSS_succeeds by blast
  with RewriteCss show ?thesis using assms
    by (auto simp add: emit_response_def emit_rewritten_def body_failure_def strategy_of_def
          origin_of_def ReadAll_def split: option.splits)
next
  case RewriteJs
  obtain out where "rewriteJS P (resp_Body resp) p (origin_of r) = Inr out"
    using rewriteJS_succeeds by blast
  with RewriteJs show ?thesis using assms
    by (auto simp add: emit_response_def emit_rewritten_def body_failure_def strategy_of_def
          origin_of_def ReadAll_def split: option.splits)
next
  case PassThrough
  then show ?thesis
    by (simp add: emit_response_def strategy_of_def)
qed

text \<open>
  Claim C5, amended. For a request with a valid target whose outbound request can be built, the
  handler sends one upstream request with the inbound method and the decoded URL. Its headers
  are the inbound headers, values and their order unchanged, except \<open>Host\<close> (always dropped) and
  \<open>Accept-Encoding\<close> (dropped in rewrite mode). Whenever the upstream answers and the handler
  relays that answer (no read or rewrite failure under a rewrite strategy), the client response
  carries the upstream headers, values unchanged, except \<open>Content-Length\<close> (dropped in rewrite
  mode), and nothing else. Header maps are as \<open>net/http\<close> delivers them: canonical, distinct
  keys.
\<close>

theorem C5_header_forwarding:
  assumes "target P r = Some (u, p)"
    and "http_NewRequest_err P (Method r) u = None"
    and "canonical_header (Header r)"
  shows "\<exists>req. sent (proxyHandler P r) = Some req
           \<and> req_Method req = Method r \<and> req_URL req = u
           \<and> (\<forall>k. header_values (req_Header req) k =
                  (if strings_ToLower P k = ''host''
                      \<or> (browse_of r \<and> strings_ToLower P k = ''accept-encoding'') then []
                   else (case map_of (Header r) k of None \<Rightarrow> [] | Some vs \<Rightarrow> vs)))
           \<and> (\<forall>resp. client_Do P req = Inr resp \<and> canonical_header (resp_Header resp)
                       \<and> \<not> body_failure P r p resp \<longrightarrow>
                  (\<forall>k. header_values (w_Header (reply (proxyHandler P r))) k =
                     (if browse_of r \<and> strings_ToLower P k = ''content-length'' then []
                      else (case map_of (resp_Header resp) k of None \<Rightarrow> [] | Some vs \<Rightarrow> vs))))"
proof -
  let ?req = "\<lparr>req_Method = Method r, req_URL = u,
               req_Header = copy_request_headers P (browse_of r) (Header r) Map.empty,
               req_Body = Body r\<rparr>"
  have s: "sent (proxyHandler P r) = Some ?req"
    by (rule proxyHandler_relay(1)[OF assms(1,2)])
  have h: "\<forall>k. header_values (req_Header ?req) k =
                  (if strings_ToLower P k = ''host''
                      \<or> (browse_of r \<and> strings_ToLower P k = ''accept-encoding'') then []
                   else (case map_of (Header r) k of None \<Rightarrow> [] | Some vs \<Rightarrow> vs))"
    by (simp add: copy_request_headers_values[OF assms(3)])
  have w: "\<forall>resp. client_Do P ?req = Inr resp \<and> canonical_header (resp_Header resp)
                       \<and> \<not> body_failure P r p resp \<longrightarrow>
                  (\<forall>k. header_values (w_Header (reply (proxyHandler P r))) k =
                     (if browse_of r \<and> strings_ToLower P k = ''content-length'' then []
                      else (case map_of (resp_Header resp) k of None \<Rightarrow> [] | Some vs \<Rightarrow> vs)))"
  proof (intro allI impI, elim conjE)
    fix resp k
    assume d: "client_Do P ?req = Inr resp" and c: "canonical_header (resp_Header resp)"
      and b: "\<not> body_failure P r p resp"
    have "reply (proxyHandler P r) = emit_response P r p (browse_of r) resp new_writer"
      by (rule proxyHandler_relay(2)[OF assms(1,2) d])
    then show "header_values (w_Header (reply (proxyHandler P r))) k =
                     (if browse_of r \<and> strings_ToLower P k = ''content-length'' then []
                      else (case map_of (resp_Header resp) k of None \<Rightarrow> [] | Some vs \<Rightarrow> vs))"
      by (simp add: emit_response_headers[OF b] copyHeaders_values[OF c])
  qed
  from s h w show ?thesis by (intro exI[of _ ?req]) simp
qed

lemma canonical_sample_keys [simp]:
  "CanonicalMIMEHeaderKey ''Accept'' = ''Accept''"
  "CanonicalMIMEHeaderKey ''Accept-Encoding'' = ''Accept-Encoding''"
  "CanonicalMIMEHeaderKey ''X-Upstream'' = ''X-Upstream''"
  by (simp_all add: CanonicalMIMEHeaderKey_def validHeaderFieldByte_def toUpper_byte_def
        toLower_byte_def Let_def)

lemma lower_sample_keys [simp]:
  "strings_ToLower (sample_platform up) ''Accept'' = ''accept''"
  "strings_ToLower (sample_platform up) ''Accept-Encoding'' = ''accept-encoding''"
  "strings_ToLower (sample_platform up) ''X-Upstream'' = ''x-upstream''"
  "strings_ToLower (sample_platform up) ''Content-Length'' = ''content-length''"
  "strings_ToLower (sample_platform up) ''Content-Type'' = ''content-type''"
  by (simp_all add: sample_platform_def toLower_ascii_def toLower_byte_def char_of_def bit_0)

lemma sample_canonical [simp]:
  "canonical_header (Header (sample_request path b))"
  "canonical_header (resp_Header (sample_response ct err))"
  by (simp_all add: canonical_header_def sample_request_def sample_response_def)

text \<open>
  Claim C5 at a request in rewrite mode whose upstream answers \<open>text/plain\<close>: \<open>Accept\<close> is
  forwarded, \<open>Accept-Encoding\<close> is not; \<open>X-Upstream\<close> reaches the client with both values,
  \<open>Content-Length\<close> does not.
\<close>

theorem C5_witness:
  "\<exists>req. sent (proxyHandler (sample_platform (Inr (sample_response ''text/plain'' None)))
             (sample_request (''/'' @ EncodeToString encodeURL ''http://e.com/'') True)) = Some req
     \<and> header_values (req_Header req) ''Accept'' = [''*/*'']
     \<and> header_values (req_Header req) ''Accept-Encoding'' = []
     \<and> header_values (w_Header (reply (proxyHandler
            (sample_platform (Inr (sample_response ''text/plain'' None)))
            (sample_request (''/'' @ EncodeToString encodeURL ''http://e.com/'') True))))
          ''X-Upstream'' = [''a'', ''b'']
     \<and> header_values (w_Header (reply (proxyHandler
            (sample_platform (Inr (sample_response ''text/plain'' None)))
            (sample_request (''/'' @ EncodeToString encodeURL ''http://e.com/'') True))))
          ''Content-Length'' = []"
proof -
  let ?resp = "sample_response ''text/plain'' None"
  let ?P = "sample_platform (Inr ?resp)"
  let ?r = "sample_request (''/'' @ EncodeToString encodeURL ''http://e.com/'') True"
  let ?p = "\<lparr>Scheme = ''http'', Opaque = [], Host = ''e.com'', Path = ''/'', RawQuery = [],
             Fragment = []\<rparr>"
  have t: "target ?P ?r = Some (''http://e.com/'', ?p)"
    by (rule sample_target)
  have n: "http_NewRequest_err ?P (Method ?r) ''http://e.com/'' = None"
    by (simp add: sample_platform_def)
  have c: "canonical_header (Header ?r)"
    by simp
  have b: "\<not> body_failure ?P ?r ?p ?resp"
    by (simp add: body_failure_def sample_strategy classify_def strings_HasPrefix_def)
  from C5_header_forwarding[OF t n c] obtain req where
    s: "sent (proxyHandler ?P ?r) = Some req"
    and hq: "\<And>k. header_values (req_Header req) k =
                  (if strings_ToLower ?P k = ''host''
                      \<or> (browse_of ?r \<and> strings_ToLower ?P k = ''accept-encoding'') then []
                   else (case map_of (Header ?r) k of None \<Rightarrow> [] | Some vs \<Rightarrow> vs))"
    and hw: "\<And>resp k. client_Do ?P req = Inr resp \<Longrightarrow> canonical_header (resp_Header resp)
                       \<Longrightarrow> \<not> body_failure ?P ?r ?p resp \<Longrightarrow>
                  header_values (w_Header (reply (proxyHandler ?P ?r))) k =
                     (if browse_of ?r \<and> strings_ToLower ?P k = ''content-length'' then []
                      else (case map_of (resp_Header resp) k of None \<Rightarrow> [] | Some vs \<Rightarrow> vs))"
    by blast
  have d: "client_Do ?P req = Inr ?resp"
    by (simp add: sample_platform_def)
  have q1: "header_values (req_Header req) ''Accept'' = [''*/*'']"
    by (subst hq) (simp add: sample_request_def)
  have q2: "header_values (req_Header req) ''Accept-Encoding'' = []"
    by (subst hq) simp
  have w1: "header_values (w_Header (reply (proxyHandler ?P ?r))) ''X-Upstream'' = [''a'', ''b'']"
    by (subst hw[OF d sample_canonical(2) b]) (simp add: sample_response_def)
  have w2: "header_values (w_Header (reply (proxyHandler ?P ?r))) ''Content-Length'' = []"
    by (subst hw[OF d sample_canonical(2) b]) simp
  from s q1 q2 w1 w2 show ?thesis by blast
qed

text \<open>
  Claim C5 as stated fails when, in rewrite mode, the upstream HTML body cannot be read in
  full: the upstream sent \<open>X-Upstream\<close> and \<open>Content-Type: text/html\<close>, the client response
  carries no \<open>X-Upstream\<close> and the error's own \<open>Content-Type\<close>.
\<close>

theorem C5_counterexample:
  "upstream_result (sample_platform (Inr (sample_response ''text/html'' (Some ''unexpected EOF''))))
       (sample_request (''/'' @ EncodeToString encodeURL ''http://e.com/'') True) ''http://e.com/''
     = Inr (sample_response ''text/html'' (Some ''unexpected EOF''))
   \<and> map_of (resp_Header (sample_response ''text/html'' (Some ''unexpected EOF''))) ''X-Upstream''
     = Some [''a'', ''b'']
   \<and> header_values (w_Header (reply (proxyHandler
          (sample_platform (Inr (sample_response ''text/html'' (Some ''unexpected EOF''))))
          (sample_request (''/'' @ EncodeToString encodeURL ''http://e.com/'') True))))
        ''X-Upstream'' = []
   \<and> header_values (w_Header (reply (proxyHandler
          (sample_platform (Inr (sample_response ''text/html'' (Some ''unexpected EOF''))))
          (sample_request (''/'' @ EncodeToString encodeURL ''http://e.com/'') True))))
        ''Content-Type'' = [''text/plain; charset=utf-8'']"
proof -
  let ?resp = "sample_response ''text/html'' (Some ''unexpected EOF'')"
  let ?P = "sample_platform (Inr ?resp)"
  let ?r = "sample_request (''/'' @ EncodeToString encodeURL ''http://e.com/'') True"
  let ?p = "\<lparr>Scheme = ''http'', Opaque = [], Host = ''e.com'', Path = ''/'', RawQuery = [],
             Fragment = []\<rparr>"
  have d: "client_Do ?P q = Inr ?resp" for q
    by (simp add: sample_platform_def)
  have n: "http_NewRequest_err ?P (Method ?r) ''http://e.com/'' = None"
    by (simp add: sample_platform_def)
  have u: "upstream_result ?P ?r ''http://e.com/'' = Inr ?resp"
    by (simp add: upstream_result_def sample_platform_def)
  have m: "map_of (resp_Header ?resp) ''X-Upstream'' = Some [''a'', ''b'']"
    by (simp add: sample_response_def)
  have ct: "header_Get (resp_Header ?resp) ''Content-Type'' = ''text/html''"
    by (simp add: sample_response_def header_Get_def)
  have e: "ReadAll ?resp = Inl ''unexpected EOF''"
    by (simp add: ReadAll_def sample_response_def)
  have "reply (proxyHandler ?P ?r) = emit_response ?P ?r ?p (browse_of ?r) ?resp new_writer"
    by (rule proxyHandler_relay(2)[OF sample_target n d])
  then have r: "reply (proxyHandler ?P ?r) = http_Error new_writer ''Error reading upstream HTML'' 500"
    by (simp add: emit_response_def emit_rewritten_def ct e classify_def strings_HasPrefix_def)
  have h1: "header_values (w_Header (reply (proxyHandler ?P ?r))) ''X-Upstream'' = []"
    unfolding r
    by (simp add: http_Error_def header_values_def header_Set_def header_Del_def new_writer_def)
  have h2: "header_values (w_Header (reply (proxyHandler ?P ?r))) ''Content-Type''
            = [''text/plain; charset=utf-8'']"
    unfolding r
    by (simp add: http_Error_def header_values_def header_Set_def header_Del_def new_writer_def)
  from u m h1 h2 show ?thesis by (simp only: simp_thms)
qed

lemma list_all2_concat_map:
  "(\<And>x. x \<in> set xs \<Longrightarrow> list_all2 R (g x) (h x))
   \<Longrightarrow> list_all2 R (concat (map g xs)) (concat (map h xs))"
  by (induction xs) (auto intro: list_all2_appendI)

lemma all_attrs_script_child [simp]:
  "all_attrs (rewrite_script_child P base origin c) = all_attrs c"
  by (cases c) (simp add: rewrite_script_child_def split: sum.splits)

lemma element_attrs_script_child [simp]:
  "element_attrs (rewrite_script_child P base origin c) = element_attrs c"
  by (cases c) (simp add: rewrite_script_child_def split: sum.splits)

lemma all_attrs_traverse_script_child [simp]:
  "all_attrs (traverse P base origin (rewrite_script_child P base origin c))
   = all_attrs (traverse P base origin c)"
  by (cases c) (simp add: rewrite_script_child_def split: sum.splits)

lemma element_attrs_traverse_script_child [simp]:
  "element_attrs (traverse P base origin (rewrite_script_child P base origin c))
   = element_attrs (traverse P base origin c)"
  by (cases c) (simp add: rewrite_script_child_def split: sum.splits)

lemma traverse_all_attrs_rel:
  assumes step: "\<And>a. R a (rewrite_attr P base origin a)" and refl: "\<And>a. R a a"
  shows "list_all2 R (all_attrs n) (all_attrs (traverse P base origin n))"
proof (induction n)
  case (Node t d attrs cs)
  have a1: "list_all2 R attrs (map (rewrite_attr P base origin) attrs)"
    by (simp add: list_all2_conv_all_nth step)
  have a0: "list_all2 R attrs attrs"
    by (simp add: list_all2_conv_all_nth refl)
  have c0: "list_all2 R (concat (map all_attrs cs))
              (concat (map (\<lambda>c. all_attrs (traverse P base origin c)) cs))"
    by (rule list_all2_concat_map) (rule Node.IH)
  have c1: "list_all2 R (concat (map all_attrs cs))
              (concat (map (\<lambda>c. all_attrs (traverse P base origin
                                               (rewrite_script_child P base origin c))) cs))"
    using c0 by simp
  show ?case
    using a0 a1 c0 c1
    by (auto simp add: Let_def comp_def intro!: list_all2_appendI)
qed

lemma traverse_element_attrs_rel:
  assumes step: "\<And>a. R a (rewrite_attr P base origin a)"
  shows "list_all2 R (element_attrs n) (element_attrs (traverse P base origin n))"
proof (induction n)
  case (Node t d attrs cs)
  have a1: "list_all2 R attrs (map (rewrite_attr P base origin) attrs)"
    by (simp add: list_all2_conv_all_nth step)
  have c0: "list_all2 R (concat (map element_attrs cs))
              (concat (map (\<lambda>c. element_attrs (traverse P base origin c)) cs))"
    by (rule list_all2_concat_map) (rule Node.IH)
  have c1: "list_all2 R (concat (map element_attrs cs))
              (concat (map (\<lambda>c. element_attrs (traverse P base origin
                                               (rewrite_script_child P base origin c))) cs))"
    using c0 by simp
  show ?case
    using a1 c0 c1
    by (auto simp add: Let_def comp_def intro!: list_all2_appendI)
qed

text \<open>
  Claim C6. The tree walk of \<open>rewriteHTML\<close> keeps every attribute in place with its namespace
  and key. It leaves the value untouched when the key, lower-cased by \<open>strings.ToLower\<close>, is
  not one of \<open>href\<close>, \<open>src\<close>, \<open>action\<close>, \<open>formaction\<close>, and when the value begins with
  \<open>data:\<close>. For a key of ASCII bytes, such as \<open>alt\<close>, lower-casing is that of the letters A to
  Z, so every ASCII key outside the four names keeps its value. The attributes are those of
  the parsed document, node by node in document order.
\<close>

theorem C6_html_rewrite_scope:
  "list_all2
     (\<lambda>a a'. Namespace a' = Namespace a \<and> Key a' = Key a
              \<and> (\<not> rewriteAttrs (strings_ToLower P (Key a))
                    \<or> strings_HasPrefix (Val a) ''data:''
                  \<longrightarrow> Val a' = Val a)
              \<and> (lower_on_ascii P \<and> is_ascii (Key a) \<and> \<not> rewriteAttrs (toLower_ascii (Key a))
                  \<longrightarrow> Val a' = Val a))
     (all_attrs n) (all_attrs (traverse P base origin n))"
  by (rule traverse_all_attrs_rel)
     (auto simp add: rewrite_attr_def lower_on_ascii_def split: sum.splits)

text \<open>
  Claim C10. On every element of the document, an attribute whose lower-cased key is in the
  rewrite set, whose value does not begin with \<open>data:\<close> and whose value parses as a URL
  reference (whatever its scheme) gets the proxied form of the reference resolved against
  the base.
\<close>

theorem C10_html_rewrites_every_other_scheme:
  "list_all2
     (\<lambda>a a'. rewriteAttrs (strings_ToLower P (Key a)) \<and> \<not> strings_HasPrefix (Val a) ''data:''
              \<longrightarrow> (\<forall>ref. url_Parse P (Val a) = Inr ref
                     \<longrightarrow> Val a' = origin @ ''/''
                            @ EncodeToString encodeURL
                                (url_String P (url_ResolveReference P base ref))
                            @ ''?browse=1''))
     (element_attrs n) (element_attrs (traverse P base origin n))"
  by (rule traverse_element_attrs_rel)
     (auto simp add: rewrite_attr_def base_Parse_def proxied_def split: sum.splits)

lemma sample_lower [simp]: "strings_ToLower (sample_platform up) = toLower_ascii"
  by (simp add: sample_platform_def)

lemma sample_lower_on_ascii: "lower_on_ascii (sample_platform up)"
  by (simp add: lower_on_ascii_def)

text \<open>
  Claim C6 at a link with three attributes: \<open>alt\<close> is an ASCII key outside the rewrite set and
  keeps its value; \<open>SRC\<close> is in the set, its value begins with \<open>data:\<close> and is kept too.
\<close>

theorem C6_witness:
  "all_attrs sample_doc ! 1 = Attribute [] ''alt'' ''x''
   \<and> lower_on_ascii (sample_platform (Inl ''unused'')) \<and> is_ascii ''alt''
   \<and> \<not> rewriteAttrs (toLower_ascii ''alt'')
   \<and> \<not> rewriteAttrs (strings_ToLower (sample_platform (Inl ''unused'')) ''alt'')
   \<and> Val (all_attrs (traverse (sample_platform (Inl ''unused'')) sample_base
                        ''http://proxy.test'' sample_doc) ! 1) = ''x''
   \<and> all_attrs sample_doc ! 2 = Attribute [] ''SRC'' ''data:image/png;base64,AA==''
   \<and> strings_HasPrefix ''data:image/png;base64,AA=='' ''data:''
   \<and> Val (all_attrs (traverse (sample_platform (Inl ''unused'')) sample_base
                        ''http://proxy.test'' sample_doc) ! 2) = ''data:image/png;base64,AA=='' "
proof -
  let ?P = "sample_platform (Inl ''unused'')"
  let ?out = "all_attrs (traverse ?P sample_base ''http://proxy.test'' sample_doc)"
  let ?R = "\<lambda>a a'. Namespace a' = Namespace a \<and> Key a' = Key a
              \<and> (\<not> rewriteAttrs (strings_ToLower ?P (Key a))
                    \<or> strings_HasPrefix (Val a) ''data:''
                  \<longrightarrow> Val a' = Val a)
              \<and> (lower_on_ascii ?P \<and> is_ascii (Key a) \<and> \<not> rewriteAttrs (toLower_ascii (Key a))
                  \<longrightarrow> Val a' = Val a)"
  have a: "all_attrs sample_doc ! 1 = Attribute [] ''alt'' ''x''"
    by (simp add: sample_doc_def)
  have a2: "all_attrs sample_doc ! 2 = Attribute [] ''SRC'' ''data:image/png;base64,AA==''"
    by (simp add: sample_doc_def)
  have l: "lower_on_ascii ?P"
    by (rule sample_lower_on_ascii)
  have i: "is_ascii ''alt''"
    by (simp add: is_ascii_def)
  have k: "\<not> rewriteAttrs (toLower_ascii ''alt'')"
    by (simp add: rewriteAttrs_def toLower_ascii_def toLower_byte_def)
  have k': "\<not> rewriteAttrs (strings_ToLower ?P ''alt'')"
    using k by simp
  have d: "strings_HasPrefix ''data:image/png;base64,AA=='' ''data:''"
    by (simp add: strings_HasPrefix_def)
  have "?R (all_attrs sample_doc ! 1) (?out ! 1)"
    by (rule list_all2_nthD[OF C6_html_rewrite_scope]) (simp add: sample_doc_def)
  then have v1: "Val (?out ! 1) = ''x''"
    using l i k unfolding a attribute.sel by blast
  have "?R (all_attrs sample_doc ! 2) (?out ! 2)"
    by (rule list_all2_nthD[OF C6_html_rewrite_scope]) (simp add: sample_doc_def)
  then have v2: "Val (?out ! 2) = ''data:image/png;base64,AA==''"
    using d unfolding a2 attribute.sel by blast
  from a l i k k' v1 a2 d v2 show ?thesis by (simp only: simp_thms)
qed

text \<open>
  Claim C10 at the same link: its \<open>href\<close> is a \<open>mailto:\<close> reference, and it is replaced with the
  proxied form.
\<close>

theorem C10_witness:
  "element_attrs sample_doc ! 0 = Attribute [] ''href'' ''mailto:a@b.c''
   \<and> rewriteAttrs (strings_ToLower (sample_platform (Inl ''unused'')) ''href'')
   \<and> \<not> strings_HasPrefix ''mailto:a@b.c'' ''data:''
   \<and> Val (element_attrs (traverse (sample_platform (Inl ''unused'')) sample_base
                            ''http://proxy.test'' sample_doc) ! 0)
       = ''http://proxy.test/'' @ EncodeToString encodeURL ''mailto:a@b.c'' @ ''?browse=1''"
proof -
  let ?P = "sample_platform (Inl ''unused'')"
  let ?out = "element_attrs (traverse ?P sample_base ''http://proxy.test'' sample_doc)"
  let ?ref = "\<lparr>Scheme = ''mailto'', Opaque = ''a@b.c'', Host = [], Path = [], RawQuery = [],
               Fragment = []\<rparr>"
  have a: "element_attrs sample_doc ! 0 = Attribute [] ''href'' ''mailto:a@b.c''"
    by (simp add: sample_doc_def)
  have k: "rewriteAttrs (strings_ToLower ?P ''href'')"
    by (simp add: rewriteAttrs_def toLower_ascii_def toLower_byte_def)
  have d: "\<not> strings_HasPrefix ''mailto:a@b.c'' ''data:''"
    by (simp add: strings_HasPrefix_def)
  have p: "url_Parse ?P ''mailto:a@b.c'' = Inr ?ref"
    by (simp add: sample_platform_def sample_url_Parse_def)
  have s: "url_String ?P (url_ResolveReference ?P sample_base ?ref) = ''mailto:a@b.c''"
    by (simp add: sample_platform_def sample_url_ResolveReference_def sample_url_String_def)
  have "rewriteAttrs (strings_ToLower ?P (Key (element_attrs sample_doc ! 0)))
          \<and> \<not> strings_HasPrefix (Val (element_attrs sample_doc ! 0)) ''data:''
        \<longrightarrow> (\<forall>ref. url_Parse ?P (Val (element_attrs sample_doc ! 0)) = Inr ref
               \<longrightarrow> Val (?out ! 0) = ''http://proxy.test'' @ ''/''
                      @ EncodeToString encodeURL
                          (url_String ?P (url_ResolveReference ?P sample_base ref))
                      @ ''?browse=1'')"
    by (rule list_all2_nthD[OF C10_html_rewrites_every_other_scheme]) (simp add: sample_doc_def)
  then have "Val (?out ! 0) = ''http://proxy.test'' @ ''/''
                      @ EncodeToString encodeURL
                          (url_String ?P (url_ResolveReference ?P sample_base ?ref))
                      @ ''?browse=1''"
    using k d p unfolding a attribute.sel by blast
  then have "Val (?out ! 0) = ''http://proxy.test/'' @ EncodeToString encodeURL ''mailto:a@b.c''
                @ ''?browse=1''"
    by (simp only: s) simp
  with a k d show ?thesis by (simp only: simp_thms)
qed

subsection \<open>First matches of the backtracking matcher\<close>



















subsection \<open>Replacement scan\<close>




lemma consumingD:
  "consuming re \<Longrightarrow> (rest, caps') \<in> set (rmatch re s caps) \<Longrightarrow> length rest < length s"
  unfolding consuming_def by blast

lemma consuming_first_match:
  assumes "consuming re" "first_match re s c = Some (rest, c')"
  shows "length rest < length s"
proof -
  from assms(2) obtain tl where "rmatch re s c = (rest, c') # tl"
    by (auto simp add: first_match_def split: list.splits)
  then have "(rest, c') \<in> set (rmatch re s c)" by simp
  then show ?thesis by (rule consumingD[OF assms(1)])
qed









subsection \<open>The patterns of rewriteCSS\<close>





















subsection \<open>The first pattern of rewriteJS\<close>
















lemma sample_parse [simp]: "url_Parse (sample_platform up) = sample_url_Parse"
  by (simp add: sample_platform_def)

lemma sample_resolve [simp]:
  "url_ResolveReference (sample_platform up) = sample_url_ResolveReference"
  by (simp add: sample_platform_def)

lemma sample_string [simp]: "url_String (sample_platform up) = sample_url_String"
  by (simp add: sample_platform_def)











end
